theory Spec2Isabelle
  imports Main
begin

section \<open>Data model of the activity bar part\<close>

text \<open>
  The development embeds \<^verbatim>\<open>ActivitybarPart\<close> of
  \<^verbatim>\<open>vs/workbench/browser/parts/activitybar/activitybarPart.ts\<close>. Field names that
  several TypeScript interfaces share (\<^verbatim>\<open>id\<close>, \<^verbatim>\<open>name\<close>, \<^verbatim>\<open>order\<close>,
  \<^verbatim>\<open>iconUrl\<close>) carry a one-letter prefix for the interface they belong to, since
  \<^verbatim>\<open>id\<close> is the identity function of HOL and record fields are global names.
  \<^verbatim>\<open>undefined\<close> is \<open>None\<close>.
\<close>

subsection \<open>Icon references and their serialized form\<close>

text \<open>
  Modelled from the spec: \<^verbatim>\<open>vs/base/common/uri\<close> is not part of the sources at hand.
  An icon reference is an opaque handle; \<^verbatim>\<open>JSON.stringify\<close> writes it through
  \<^verbatim>\<open>toJSON\<close> as an object, and \<^verbatim>\<open>URI.revive\<close> rebuilds the handle from that
  object.
\<close>

datatype URI = URI string

datatype UriState = UriState string

fun URI_toJSON :: "URI \<Rightarrow> UriState" where
  "URI_toJSON (URI u) = UriState u"

fun URI_revive :: "UriState \<Rightarrow> URI" where
  "URI_revive (UriState u) = URI u"

text \<open>
  What \<^verbatim>\<open>JSON.parse\<close> can deliver for the \<^verbatim>\<open>iconUrl\<close> property of one stored
  element: nothing (\<^verbatim>\<open>JSON.stringify\<close> leaves out a property whose value is
  \<^verbatim>\<open>undefined\<close>), an object, or a value whose \<^verbatim>\<open>typeof\<close> is not
  \<^verbatim>\<open>'object'\<close>.
\<close>

datatype iconUrlJSON = JSON_absent | JSON_object UriState | JSON_primitive string

record IPlaceholderCompositeJSON =
  j_id :: string
  j_iconUrl :: iconUrlJSON

text \<open>
  The storage service maps a key to the stored document. The stored text is kept as the
  document \<^verbatim>\<open>JSON.parse\<close> reads from it, at the element type the constructor casts
  it to; a key without a value is \<open>None\<close>.
\<close>

type_synonym IStorageService = "string \<rightharpoonup> IPlaceholderCompositeJSON list"

definition PLACEHOLDER_VIEWLETS :: string where
  "PLACEHOLDER_VIEWLETS = ''workbench.activity.placeholderViewlets''"

subsection \<open>Viewlets, placeholders and the viewlet service\<close>

record ViewletDescriptor =
  v_id :: string
  v_name :: string
  v_order :: "int option"
  v_iconUrl :: "URI option"

record IPlaceholderComposite =
  p_id :: string
  p_iconUrl :: "URI option"

text \<open>
  Modelled from the spec: the viewlet service (the registration source) is not part of
  the sources at hand. It lists the live descriptors in its own order, finds the
  descriptor of an id among them, and names the active viewlet, if any.
\<close>

record IViewletService =
  viewlets :: "ViewletDescriptor list"
  activeViewlet :: "string option"

definition getViewlets :: "IViewletService \<Rightarrow> ViewletDescriptor list" where
  "getViewlets vs = viewlets vs"

definition getViewlet :: "IViewletService \<Rightarrow> string \<Rightarrow> ViewletDescriptor option" where
  "getViewlet vs i = find (\<lambda>v. v_id v = i) (viewlets vs)"

definition getActiveViewlet :: "IViewletService \<Rightarrow> string option" where
  "getActiveViewlet vs = activeViewlet vs"

subsection \<open>Badges, global activities and errors\<close>

datatype IBadge = IBadge string

text \<open>
  Modelled from the spec: \<^verbatim>\<open>GlobalActivityAction\<close> lives in
  \<^verbatim>\<open>activitybarActions\<close>. Its badge is set or absent; \<^verbatim>\<open>setBadge\<close> replaces
  the badge and its class.
\<close>

record GlobalActivityAction =
  g_id :: string
  g_badge :: "IBadge option"
  g_clazz :: "string option"

definition setBadge :: "GlobalActivityAction \<Rightarrow> IBadge option \<Rightarrow> string option \<Rightarrow> GlobalActivityAction" where
  "setBadge a badge clazz = a\<lparr>g_badge := badge, g_clazz := clazz\<rparr>"

text \<open>
  \<^verbatim>\<open>illegalArgument(name)\<close> builds the error a method throws on a bad argument;
  \<open>TypeError\<close> is what the runtime throws when a property of \<^verbatim>\<open>undefined\<close> is
  read.
\<close>

datatype error = illegalArgument string | TypeError

subsection \<open>The composite bar\<close>

text \<open>
  Modelled from the spec: \<^verbatim>\<open>CompositeBar\<close> (the composite host) lives in
  \<^verbatim>\<open>vs/workbench/browser/parts/compositeBar\<close>. From the interface the part
  consumes: an ordered list of entries keyed by id, the pin state it tracks per id,
  the active entry, the activities (badges) shown on entries, and the ids its own
  storage lists. \<^verbatim>\<open>addComposite\<close> is an idempotent upsert: an entry of the same id
  is replaced where it stands, a new one goes to the end.
\<close>

record ICompositeBarItem =
  c_id :: string
  c_name :: string
  c_order :: "int option"

record IActivity =
  a_badge :: "IBadge option"
  a_clazz :: "string option"
  a_priority :: "int option"

record CompositeBar =
  items :: "ICompositeBarItem list"
  pinnedIds :: "string set"
  activeItem :: "string option"
  activities :: "(string \<times> IActivity) list"
  storedIds :: "string list"

text \<open>
  A disposable is the closure it runs: clearing the badge of the global activity it was
  made for, or taking an activity off the composite bar again.
\<close>

datatype IDisposable =
  GlobalBadgeDisposable string
  | CompositeActivityDisposable string IActivity

text \<open>
  Modelled from the spec: the operations of the composite bar that the part calls
  (\<^verbatim>\<open>addEntry\<close>, \<^verbatim>\<open>removeEntry\<close>, \<^verbatim>\<open>pin\<close>, \<^verbatim>\<open>isPinned\<close>,
  \<^verbatim>\<open>activate\<close>, \<^verbatim>\<open>setBadge\<close>, \<^verbatim>\<open>legacyStoredIds\<close> of the host interface),
  under the names \<^verbatim>\<open>CompositeBar\<close> gives them. Adding an entry does not touch the pin
  state, which the bar tracks per id; the badge primitive takes the activity as it comes
  and hands back the disposable that takes it off again.
\<close>

definition findItem :: "CompositeBar \<Rightarrow> string \<Rightarrow> ICompositeBarItem option" where
  "findItem cb i = find (\<lambda>e. c_id e = i) (items cb)"

definition CompositeBar_addComposite :: "CompositeBar \<Rightarrow> ICompositeBarItem \<Rightarrow> CompositeBar" where
  "CompositeBar_addComposite cb e =
     (if list_ex (\<lambda>x. c_id x = c_id e) (items cb)
      then cb\<lparr>items := map (\<lambda>x. if c_id x = c_id e then e else x) (items cb)\<rparr>
      else cb\<lparr>items := items cb @ [e]\<rparr>)"

definition CompositeBar_removeComposite :: "CompositeBar \<Rightarrow> string \<Rightarrow> CompositeBar" where
  "CompositeBar_removeComposite cb i = cb\<lparr>items := filter (\<lambda>x. c_id x \<noteq> i) (items cb)\<rparr>"

definition CompositeBar_pin :: "CompositeBar \<Rightarrow> string \<Rightarrow> CompositeBar" where
  "CompositeBar_pin cb i = cb\<lparr>pinnedIds := insert i (pinnedIds cb)\<rparr>"

definition CompositeBar_isPinned :: "CompositeBar \<Rightarrow> string \<Rightarrow> bool" where
  "CompositeBar_isPinned cb i = (i \<in> pinnedIds cb)"

definition CompositeBar_activateComposite :: "CompositeBar \<Rightarrow> string \<Rightarrow> CompositeBar" where
  "CompositeBar_activateComposite cb i = cb\<lparr>activeItem := Some i\<rparr>"

definition CompositeBar_showActivity ::
  "CompositeBar \<Rightarrow> string \<Rightarrow> IBadge option \<Rightarrow> string option \<Rightarrow> int option \<Rightarrow> IDisposable \<times> CompositeBar" where
  "CompositeBar_showActivity cb i badge clazz priority =
     (let activity = \<lparr>a_badge = badge, a_clazz = clazz, a_priority = priority\<rparr>
      in (CompositeActivityDisposable i activity, cb\<lparr>activities := activities cb @ [(i, activity)]\<rparr>))"

definition CompositeBar_getCompositesFromStorage :: "CompositeBar \<Rightarrow> string list" where
  "CompositeBar_getCompositesFromStorage cb = storedIds cb"

subsection \<open>Control pairs and the state of the part\<close>

text \<open>
  The two action classes and their placeholder subclasses. A placeholder action keeps
  the id (and, for the activity action, the icon) it was built with, and the activity
  that \<^verbatim>\<open>setActivity\<close> gave it once its viewlet registered.
\<close>

datatype ViewletActivityAction =
  ViewletActivityAction ViewletDescriptor
  | PlaceHolderViewletActivityAction string "URI option" "ViewletDescriptor option"

datatype ToggleCompositePinnedAction =
  ToggleCompositePinnedAction ViewletDescriptor
  | PlaceHolderToggleCompositePinnedAction string "ViewletDescriptor option"

record CompositeActions =
  activityAction :: ViewletActivityAction
  pinnedAction :: ToggleCompositePinnedAction

text \<open>
  The fields of the part that the coordinator reads and writes, with the services it
  was given. The two dictionaries are made by \<^verbatim>\<open>Object.create(null)\<close>: maps from
  an id to a value, with no inherited key.
\<close>

record ActivitybarPart =
  viewletService :: IViewletService
  storageService :: IStorageService
  compositeBar :: CompositeBar
  globalActivityIdToActions :: "string \<rightharpoonup> GlobalActivityAction"
  placeholderComposites :: "IPlaceholderComposite list"
  compositeActions :: "string \<rightharpoonup> CompositeActions"

text \<open>
  A method either returns a value or throws; both outcomes carry the state of the part
  at that moment, so that what a failing call had already changed stays visible.
\<close>

datatype 'a result =
  Return (valueOf: 'a) (stateOf: ActivitybarPart)
  | Throw (errorOf: error) (stateOf: ActivitybarPart)

section \<open>Operations\<close>

subsection \<open>Control pairs\<close>

definition getCompositeActions :: "ActivitybarPart \<Rightarrow> string \<Rightarrow> CompositeActions result" where
  "getCompositeActions s compositeId =
     (case compositeActions s compositeId of
        Some existing \<Rightarrow> Return existing s
      | None \<Rightarrow>
         (case getViewlet (viewletService s) compositeId of
            Some viewlet \<Rightarrow>
              (let created = \<lparr>activityAction = ViewletActivityAction viewlet,
                              pinnedAction = ToggleCompositePinnedAction viewlet\<rparr>
               in Return created (s\<lparr>compositeActions := (compositeActions s)(compositeId \<mapsto> created)\<rparr>))
          | None \<Rightarrow>
              (case filter (\<lambda>c. p_id c = compositeId) (placeholderComposites s) of
                 [] \<Rightarrow> Throw TypeError s
               | placeHolderComposite # _ \<Rightarrow>
                   (let created = \<lparr>activityAction =
                                     PlaceHolderViewletActivityAction compositeId (p_iconUrl placeHolderComposite) None,
                                   pinnedAction = PlaceHolderToggleCompositePinnedAction compositeId None\<rparr>
                    in Return created (s\<lparr>compositeActions := (compositeActions s)(compositeId \<mapsto> created)\<rparr>)))))"

fun setActivity_activity :: "ViewletActivityAction \<Rightarrow> ViewletDescriptor \<Rightarrow> ViewletActivityAction" where
  "setActivity_activity (PlaceHolderViewletActivityAction i icon _) viewlet =
     PlaceHolderViewletActivityAction i icon (Some viewlet)"
| "setActivity_activity (ViewletActivityAction v) viewlet = ViewletActivityAction v"

fun setActivity_pinned :: "ToggleCompositePinnedAction \<Rightarrow> ViewletDescriptor \<Rightarrow> ToggleCompositePinnedAction" where
  "setActivity_pinned (PlaceHolderToggleCompositePinnedAction i _) viewlet =
     PlaceHolderToggleCompositePinnedAction i (Some viewlet)"
| "setActivity_pinned (ToggleCompositePinnedAction v) viewlet = ToggleCompositePinnedAction v"

text \<open>
  \<^verbatim>\<open>enableCompositeActions\<close> changes the two action objects in place; they are the
  objects the dictionary holds under the viewlet's id.
\<close>

definition enableCompositeActions :: "ActivitybarPart \<Rightarrow> ViewletDescriptor \<Rightarrow> unit result" where
  "enableCompositeActions s viewlet =
     (case getCompositeActions s (v_id viewlet) of
        Throw e s' \<Rightarrow> Throw e s'
      | Return actions s' \<Rightarrow>
          Return () (s'\<lparr>compositeActions := (compositeActions s')(v_id viewlet \<mapsto>
            \<lparr>activityAction = setActivity_activity (activityAction actions) viewlet,
             pinnedAction = setActivity_pinned (pinnedAction actions) viewlet\<rparr>)\<rparr>))"

text \<open>
  \<^verbatim>\<open>removeComposite\<close> takes the entry off the composite bar and, if the dictionary
  holds a pair for the id, disposes its two actions and deletes the key. Disposing an
  action changes nothing of the state kept here: the pair is gone from the dictionary.
\<close>

definition removeComposite :: "ActivitybarPart \<Rightarrow> string \<Rightarrow> ActivitybarPart" where
  "removeComposite s compositeId =
     (let s1 = s\<lparr>compositeBar := CompositeBar_removeComposite (compositeBar s) compositeId\<rparr>
      in case compositeActions s1 compositeId of
           None \<Rightarrow> s1
         | Some _ \<Rightarrow> s1\<lparr>compositeActions := (compositeActions s1)(compositeId := None)\<rparr>)"

subsection \<open>Reconciling the composite bar with the viewlets\<close>

definition barItem :: "ViewletDescriptor \<Rightarrow> ICompositeBarItem" where
  "barItem viewlet = \<lparr>c_id = v_id viewlet, c_name = v_name viewlet, c_order = v_order viewlet\<rparr>"

definition updateCompositebar_body :: "ActivitybarPart \<Rightarrow> ViewletDescriptor \<Rightarrow> unit result" where
  "updateCompositebar_body s viewlet =
     (let s1 = s\<lparr>compositeBar := CompositeBar_addComposite (compositeBar s) (barItem viewlet)\<rparr>;
          s2 = (if list_all (\<lambda>c. p_id c \<noteq> v_id viewlet) (placeholderComposites s1)
                then s1\<lparr>compositeBar := CompositeBar_pin (compositeBar s1) (v_id viewlet)\<rparr>
                else s1)
      in case enableCompositeActions s2 viewlet of
           Throw e s3 \<Rightarrow> Throw e s3
         | Return _ s3 \<Rightarrow>
             (if getActiveViewlet (viewletService s3) = Some (v_id viewlet)
              then Return () (s3\<lparr>compositeBar :=
                     CompositeBar_activateComposite (CompositeBar_pin (compositeBar s3) (v_id viewlet)) (v_id viewlet)\<rparr>)
              else Return () s3))"

fun updateCompositebar_loop :: "ActivitybarPart \<Rightarrow> ViewletDescriptor list \<Rightarrow> unit result" where
  "updateCompositebar_loop s [] = Return () s"
| "updateCompositebar_loop s (viewlet # rest) =
     (case updateCompositebar_body s viewlet of
        Throw e s' \<Rightarrow> Throw e s'
      | Return _ s' \<Rightarrow> updateCompositebar_loop s' rest)"

definition updateCompositebar :: "ActivitybarPart \<Rightarrow> unit result" where
  "updateCompositebar s = updateCompositebar_loop s (getViewlets (viewletService s))"

fun updatePlaceholderComposites_loop ::
  "ViewletDescriptor list \<Rightarrow> ActivitybarPart \<Rightarrow> IPlaceholderComposite list \<Rightarrow> ActivitybarPart" where
  "updatePlaceholderComposites_loop vls s [] = s"
| "updatePlaceholderComposites_loop vls s (c # rest) =
     updatePlaceholderComposites_loop vls
       (if list_all (\<lambda>viewlet. v_id viewlet \<noteq> p_id c) vls
        then s\<lparr>compositeBar := CompositeBar_addComposite (compositeBar s)
                 \<lparr>c_id = p_id c, c_name = p_id c, c_order = None\<rparr>\<rparr>
        else s)
       rest"

definition updatePlaceholderComposites :: "ActivitybarPart \<Rightarrow> ActivitybarPart" where
  "updatePlaceholderComposites s =
     updatePlaceholderComposites_loop (getViewlets (viewletService s)) s (placeholderComposites s)"

fun removeNotExistingPlaceholderComposites_loop ::
  "ViewletDescriptor list \<Rightarrow> ActivitybarPart \<Rightarrow> IPlaceholderComposite list \<Rightarrow> ActivitybarPart" where
  "removeNotExistingPlaceholderComposites_loop vls s [] = s"
| "removeNotExistingPlaceholderComposites_loop vls s (c # rest) =
     removeNotExistingPlaceholderComposites_loop vls
       (if list_all (\<lambda>viewlet. v_id viewlet \<noteq> p_id c) vls then removeComposite s (p_id c) else s)
       rest"

definition removeNotExistingPlaceholderComposites :: "ActivitybarPart \<Rightarrow> ActivitybarPart" where
  "removeNotExistingPlaceholderComposites s =
     removeNotExistingPlaceholderComposites_loop (getViewlets (viewletService s)) s (placeholderComposites s)"

definition onDidRegisterExtensions :: "ActivitybarPart \<Rightarrow> unit result" where
  "onDidRegisterExtensions s = updateCompositebar (removeNotExistingPlaceholderComposites s)"

text \<open>
  Modelled from the spec: how the viewlet service takes a registration. It lists the new
  descriptor after the ones it has and fires the event; the listener of the part, from the
  source, answers with \<^verbatim>\<open>updateCompositebar\<close>.
\<close>

definition onDidViewletRegister :: "ActivitybarPart \<Rightarrow> ViewletDescriptor \<Rightarrow> unit result" where
  "onDidViewletRegister s viewlet =
     updateCompositebar
       (s\<lparr>viewletService := (viewletService s)\<lparr>viewlets := viewlets (viewletService s) @ [viewlet]\<rparr>\<rparr>)"

subsection \<open>Badges\<close>

text \<open>
  \<^verbatim>\<open>createGlobalActivityActionBar\<close> makes one action per activity of the global
  activity registry and files it under its id; the registry is not part of the sources at
  hand, its activities come in as the list of their ids.
\<close>

definition createGlobalActivityActionBar :: "ActivitybarPart \<Rightarrow> string list \<Rightarrow> ActivitybarPart" where
  "createGlobalActivityActionBar s descriptors =
     (let actions = map (\<lambda>i. \<lparr>g_id = i, g_badge = None, g_clazz = None\<rparr>) descriptors
      in s\<lparr>globalActivityIdToActions :=
             foldl (\<lambda>m a. m(g_id a \<mapsto> a)) (globalActivityIdToActions s) actions\<rparr>)"

definition showGlobalActivity ::
  "ActivitybarPart \<Rightarrow> string \<Rightarrow> IBadge option \<Rightarrow> string option \<Rightarrow> IDisposable result" where
  "showGlobalActivity s globalActivityId badge clazz =
     (case badge of
        None \<Rightarrow> Throw (illegalArgument ''badge'') s
      | Some b \<Rightarrow>
         (case globalActivityIdToActions s globalActivityId of
            None \<Rightarrow> Throw (illegalArgument ''globalActivityId'') s
          | Some action \<Rightarrow>
              Return (GlobalBadgeDisposable globalActivityId)
                (s\<lparr>globalActivityIdToActions :=
                     (globalActivityIdToActions s)(globalActivityId \<mapsto> setBadge action (Some b) clazz)\<rparr>)))"

definition showActivity ::
  "ActivitybarPart \<Rightarrow> string \<Rightarrow> IBadge option \<Rightarrow> string option \<Rightarrow> int option \<Rightarrow> IDisposable result" where
  "showActivity s viewletOrActionId badge clazz priority =
     (case getViewlet (viewletService s) viewletOrActionId of
        Some _ \<Rightarrow>
          (case CompositeBar_showActivity (compositeBar s) viewletOrActionId badge clazz priority of
             (d, cb) \<Rightarrow> Return d (s\<lparr>compositeBar := cb\<rparr>))
      | None \<Rightarrow> showGlobalActivity s viewletOrActionId badge clazz)"

text \<open>
  Modelled from the spec: \<^verbatim>\<open>toDisposable\<close> lives in \<^verbatim>\<open>vs/base/common/lifecycle\<close>;
  its handle runs the closure it was given on every dispose. The handle of a global
  activity runs
  \<^verbatim>\<open>action.setBadge(undefined)\<close> on the action it was made for, every time it is
  disposed; the actions of the global activities stay in the dictionary under their id
  from the moment the action bar is created.
\<close>

fun dispose :: "IDisposable \<Rightarrow> ActivitybarPart \<Rightarrow> ActivitybarPart" where
  "dispose (GlobalBadgeDisposable i) s =
     (case globalActivityIdToActions s i of
        None \<Rightarrow> s
      | Some action \<Rightarrow>
          s\<lparr>globalActivityIdToActions := (globalActivityIdToActions s)(i \<mapsto> setBadge action None None)\<rparr>)"
| "dispose (CompositeActivityDisposable i activity) s =
     s\<lparr>compositeBar := (compositeBar s)\<lparr>activities := remove1 (i, activity) (activities (compositeBar s))\<rparr>\<rparr>"

subsection \<open>Pinned viewlets, shutdown and construction\<close>

definition getPinned :: "ActivitybarPart \<Rightarrow> string list result" where
  "getPinned s =
     Return (filter (\<lambda>i. CompositeBar_isPinned (compositeBar s) i) (map v_id (getViewlets (viewletService s)))) s"

definition stringify_iconUrl :: "URI option \<Rightarrow> iconUrlJSON" where
  "stringify_iconUrl u = (case u of None \<Rightarrow> JSON_absent | Some uri \<Rightarrow> JSON_object (URI_toJSON uri))"

definition shutdown :: "ActivitybarPart \<Rightarrow> ActivitybarPart" where
  "shutdown s =
     (let state = map (\<lambda>viewlet. \<lparr>j_id = v_id viewlet, j_iconUrl = stringify_iconUrl (v_iconUrl viewlet)\<rparr>)
                      (getViewlets (viewletService s))
      in s\<lparr>storageService := (storageService s)(PLACEHOLDER_VIEWLETS \<mapsto> state)\<rparr>)"

definition revive_iconUrl :: "iconUrlJSON \<Rightarrow> URI option" where
  "revive_iconUrl j = (case j of JSON_object u \<Rightarrow> Some (URI_revive u) | _ \<Rightarrow> None)"

definition loadPlaceholderComposites :: "IStorageService \<Rightarrow> CompositeBar \<Rightarrow> IPlaceholderComposite list" where
  "loadPlaceholderComposites st cb =
     (case st PLACEHOLDER_VIEWLETS of
        Some parsedPreviousState \<Rightarrow>
          map (\<lambda>j. \<lparr>p_id = j_id j, p_iconUrl = revive_iconUrl (j_iconUrl j)\<rparr>) parsedPreviousState
      | None \<Rightarrow>
          map (\<lambda>i. \<lparr>p_id = i, p_iconUrl = None\<rparr>) (CompositeBar_getCompositesFromStorage cb))"

text \<open>
  The constructor: the part starts with both dictionaries empty, loads the placeholders,
  and runs \<^verbatim>\<open>updateCompositebar\<close> and \<^verbatim>\<open>updatePlaceholderComposites\<close>. Its
  arguments are the services and the composite bar the instantiation service made.
\<close>

definition new_ActivitybarPart :: "IViewletService \<Rightarrow> IStorageService \<Rightarrow> CompositeBar \<Rightarrow> unit result" where
  "new_ActivitybarPart vs st cb =
     (let s = \<lparr>viewletService = vs, storageService = st, compositeBar = cb,
               globalActivityIdToActions = Map.empty,
               placeholderComposites = loadPlaceholderComposites st cb,
               compositeActions = Map.empty\<rparr>
      in case updateCompositebar s of
           Throw e s' \<Rightarrow> Throw e s'
         | Return _ s' \<Rightarrow> Return () (updatePlaceholderComposites s'))"

section \<open>Named values for the statements\<close>

text \<open>The pair \<^verbatim>\<open>getCompositeActions\<close> builds from a live descriptor, and from a placeholder.\<close>

definition liveActions :: "ViewletDescriptor \<Rightarrow> CompositeActions" where
  "liveActions viewlet =
     \<lparr>activityAction = ViewletActivityAction viewlet, pinnedAction = ToggleCompositePinnedAction viewlet\<rparr>"

definition placeholderActions :: "string \<Rightarrow> URI option \<Rightarrow> CompositeActions" where
  "placeholderActions i icon =
     \<lparr>activityAction = PlaceHolderViewletActivityAction i icon None,
      pinnedAction = PlaceHolderToggleCompositePinnedAction i None\<rparr>"

text \<open>
  The two reasons for which \<^verbatim>\<open>updateCompositebar\<close> pins a viewlet: no placeholder
  carries its id, or it is the active viewlet.
\<close>

definition pinsViewlet :: "ActivitybarPart \<Rightarrow> string \<Rightarrow> bool" where
  "pinsViewlet s i \<longleftrightarrow>
     i \<notin> p_id ` set (placeholderComposites s) \<or> getActiveViewlet (viewletService s) = Some i"

subsection \<open>Concrete states\<close>

definition emptyBar :: CompositeBar where
  "emptyBar = \<lparr>items = [], pinnedIds = {}, activeItem = None, activities = [], storedIds = []\<rparr>"

definition noViewlets :: IViewletService where
  "noViewlets = \<lparr>viewlets = [], activeViewlet = None\<rparr>"

definition part :: "ViewletDescriptor list \<Rightarrow> IPlaceholderComposite list \<Rightarrow> ActivitybarPart" where
  "part vls phs =
     \<lparr>viewletService = \<lparr>viewlets = vls, activeViewlet = None\<rparr>, storageService = Map.empty,
      compositeBar = emptyBar, globalActivityIdToActions = Map.empty,
      placeholderComposites = phs, compositeActions = Map.empty\<rparr>"

definition git :: ViewletDescriptor where
  "git = \<lparr>v_id = ''git'', v_name = ''Source Control'', v_order = Some 2, v_iconUrl = Some (URI ''U1'')\<rparr>"

definition gitPlaceholder :: IPlaceholderComposite where
  "gitPlaceholder = \<lparr>p_id = ''git'', p_iconUrl = Some (URI ''U1'')\<rparr>"

definition viewletA :: ViewletDescriptor where
  "viewletA = \<lparr>v_id = ''A'', v_name = ''Alpha'', v_order = None, v_iconUrl = None\<rparr>"

definition viewletB :: ViewletDescriptor where
  "viewletB = \<lparr>v_id = ''B'', v_name = ''Beta'', v_order = None, v_iconUrl = None\<rparr>"

text \<open>
  A session that starts with the placeholders \<open>A\<close> and \<open>B\<close> stored and no viewlet,
  and in which \<open>A\<close> then registers.
\<close>

definition storedAB :: IStorageService where
  "storedAB = [PLACEHOLDER_VIEWLETS \<mapsto>
     [\<lparr>j_id = ''A'', j_iconUrl = JSON_absent\<rparr>, \<lparr>j_id = ''B'', j_iconUrl = JSON_absent\<rparr>]]"

definition ghostExample :: ActivitybarPart where
  "ghostExample =
     stateOf (onDidViewletRegister (stateOf (new_ActivitybarPart noViewlets storedAB emptyBar)) viewletA)"

text \<open>
  A part whose action bar holds the global activity \<open>globalX\<close>, and one where a global
  activity carries the id of the live viewlet \<open>git\<close>.
\<close>

definition withGlobalX :: ActivitybarPart where
  "withGlobalX = createGlobalActivityActionBar (part [git] []) [''globalX'']"

definition bothRoutes :: ActivitybarPart where
  "bothRoutes = createGlobalActivityActionBar (part [git] []) [''git'']"

text \<open>
  A part in which \<open>git\<close> is live, is the active viewlet and has a placeholder on record,
  while the composite bar does not mark it pinned.
\<close>

definition activeGit :: ActivitybarPart where
  "activeGit =
     (part [git] [gitPlaceholder])\<lparr>viewletService := \<lparr>viewlets = [git], activeViewlet = Some ''git''\<rparr>\<rparr>"

text \<open>
  A session in which only \<open>git\<close> is live is shut down, and the next one starts from what it
  stored, before any viewlet has registered.
\<close>

definition restartAfterGit :: "unit result" where
  "restartAfterGit = new_ActivitybarPart noViewlets (storageService (shutdown (part [git] []))) emptyBar"

text \<open>
  Following the spec's words for \<^verbatim>\<open>getPinnedIds\<close>: the live composite ids in the order
  of the composite bar's entries, filtered to those marked pinned. It is compared below
  with \<^verbatim>\<open>getPinned\<close> as the source has it.
\<close>

definition getPinnedIds_spec :: "ActivitybarPart \<Rightarrow> string list" where
  "getPinnedIds_spec s =
     filter (\<lambda>i. getViewlet (viewletService s) i \<noteq> None \<and> CompositeBar_isPinned (compositeBar s) i)
       (map c_id (items (compositeBar s)))"

text \<open>
  The last session stored \<open>B\<close> before \<open>A\<close>, the composite bar marks both pinned, and in
  this session \<open>A\<close> registers before \<open>B\<close>.
\<close>

definition storedBA :: IStorageService where
  "storedBA = [PLACEHOLDER_VIEWLETS \<mapsto>
     [\<lparr>j_id = ''B'', j_iconUrl = JSON_absent\<rparr>, \<lparr>j_id = ''A'', j_iconUrl = JSON_absent\<rparr>]]"

definition hostOrderExample :: ActivitybarPart where
  "hostOrderExample =
     stateOf (onDidViewletRegister
       (stateOf (onDidViewletRegister
          (stateOf (new_ActivitybarPart noViewlets storedBA (emptyBar\<lparr>pinnedIds := {''A'', ''B''}\<rparr>)))
          viewletA))
       viewletB)"

text \<open>Two viewlets that are new to the part, after \<^verbatim>\<open>updateCompositebar\<close>.\<close>

definition freshExample :: ActivitybarPart where
  "freshExample = stateOf (updateCompositebar (part [git, viewletA] []))"

section \<open>Auxiliary facts\<close>

lemma filter_hd_find:
  "(case filter P xs of [] \<Rightarrow> a | x # _ \<Rightarrow> f x) = (case find P xs of None \<Rightarrow> a | Some x \<Rightarrow> f x)"
  by (induction xs) auto

lemma getViewlet_live:
  "v \<in> set (viewlets vs) \<Longrightarrow> \<exists>w. getViewlet vs (v_id v) = Some w"
  by (cases "getViewlet vs (v_id v)") (auto simp: getViewlet_def find_None_iff)

lemma getViewlet_None_iff: "getViewlet vs i = None \<longleftrightarrow> i \<notin> v_id ` set (viewlets vs)"
  by (auto simp: getViewlet_def find_None_iff)

lemma find_SomeD: "find P xs = Some x \<Longrightarrow> x \<in> set xs \<and> P x"
  by (induction xs) (auto split: if_splits)

subsection \<open>What the composite bar's operations change\<close>

lemma ids_addComposite:
  "c_id ` set (items (CompositeBar_addComposite cb e)) = insert (c_id e) (c_id ` set (items cb))"
  by (auto simp: CompositeBar_addComposite_def list_ex_iff image_iff)

lemma pinned_addComposite: "pinnedIds (CompositeBar_addComposite cb e) = pinnedIds cb"
  by (simp add: CompositeBar_addComposite_def)

lemma ids_removeComposite:
  "c_id ` set (items (CompositeBar_removeComposite cb i)) = c_id ` set (items cb) - {i}"
  by (auto simp: CompositeBar_removeComposite_def)

lemma findItem_None_iff: "findItem cb i = None \<longleftrightarrow> i \<notin> c_id ` set (items cb)"
  by (auto simp: findItem_def find_None_iff)

subsection \<open>The loop of updateCompositebar\<close>

lemma enableCompositeActions_live:
  assumes "v \<in> set (viewlets (viewletService s))"
  shows "\<exists>ca. enableCompositeActions s v =
           Return () (s\<lparr>compositeActions := (compositeActions s)(v_id v \<mapsto> ca)\<rparr>)"
proof -
  obtain w where "getViewlet (viewletService s) (v_id v) = Some w"
    using getViewlet_live [OF assms] by blast
  then show ?thesis
    by (cases "compositeActions s (v_id v)")
       (auto simp: enableCompositeActions_def getCompositeActions_def Let_def)
qed

lemma updateCompositebar_body_effect:
  assumes "v \<in> set (viewlets (viewletService s))"
  shows "\<exists>s'. updateCompositebar_body s v = Return () s' \<and>
           viewletService s' = viewletService s \<and>
           placeholderComposites s' = placeholderComposites s \<and>
           pinnedIds (compositeBar s') =
             pinnedIds (compositeBar s) \<union> (if pinsViewlet s (v_id v) then {v_id v} else {}) \<and>
           c_id ` set (items (compositeBar s')) = insert (v_id v) (c_id ` set (items (compositeBar s))) \<and>
           dom (compositeActions s') = insert (v_id v) (dom (compositeActions s))"
proof -
  let ?s1 = "s\<lparr>compositeBar := CompositeBar_addComposite (compositeBar s) (barItem v)\<rparr>"
  let ?s2 = "if list_all (\<lambda>c. p_id c \<noteq> v_id v) (placeholderComposites ?s1)
             then ?s1\<lparr>compositeBar := CompositeBar_pin (compositeBar ?s1) (v_id v)\<rparr> else ?s1"
  have live: "v \<in> set (viewlets (viewletService ?s2))"
    using assms by simp
  obtain ca where en: "enableCompositeActions ?s2 v =
      Return () (?s2\<lparr>compositeActions := (compositeActions ?s2)(v_id v \<mapsto> ca)\<rparr>)"
    using enableCompositeActions_live [OF live] by blast
  let ?s3 = "?s2\<lparr>compositeActions := (compositeActions ?s2)(v_id v \<mapsto> ca)\<rparr>"
  let ?s4 = "if getActiveViewlet (viewletService ?s3) = Some (v_id v)
             then ?s3\<lparr>compositeBar := CompositeBar_activateComposite
                    (CompositeBar_pin (compositeBar ?s3) (v_id v)) (v_id v)\<rparr>
             else ?s3"
  have nop: "list_all (\<lambda>c. p_id c \<noteq> v_id v) (placeholderComposites s) \<longleftrightarrow>
             v_id v \<notin> p_id ` set (placeholderComposites s)"
    by (force simp: list_all_iff)
  have run: "updateCompositebar_body s v = Return () ?s4"
    unfolding updateCompositebar_body_def Let_def en by simp
  have "viewletService ?s4 = viewletService s" "placeholderComposites ?s4 = placeholderComposites s"
    by simp_all
  moreover have "pinnedIds (compositeBar ?s4) =
      pinnedIds (compositeBar s) \<union> (if pinsViewlet s (v_id v) then {v_id v} else {})"
    by (simp add: nop pinsViewlet_def CompositeBar_pin_def CompositeBar_activateComposite_def
          pinned_addComposite)
  moreover have "c_id ` set (items (compositeBar ?s4)) =
      insert (v_id v) (c_id ` set (items (compositeBar s)))"
    by (simp add: CompositeBar_pin_def CompositeBar_activateComposite_def ids_addComposite barItem_def)
  moreover have "dom (compositeActions ?s4) = insert (v_id v) (dom (compositeActions s))"
    by simp
  ultimately show ?thesis
    using run by blast
qed

lemma updateCompositebar_loop_effect:
  "set vls \<subseteq> set (viewlets (viewletService s)) \<Longrightarrow>
   \<exists>s'. updateCompositebar_loop s vls = Return () s' \<and>
        viewletService s' = viewletService s \<and>
        placeholderComposites s' = placeholderComposites s \<and>
        pinnedIds (compositeBar s') =
          pinnedIds (compositeBar s) \<union> {i \<in> v_id ` set vls. pinsViewlet s i} \<and>
        c_id ` set (items (compositeBar s')) = c_id ` set (items (compositeBar s)) \<union> v_id ` set vls \<and>
        dom (compositeActions s') = dom (compositeActions s) \<union> v_id ` set vls"
proof (induction vls arbitrary: s)
  case Nil
  then show ?case by simp
next
  case (Cons v vls)
  then have "v \<in> set (viewlets (viewletService s))" by simp
  from updateCompositebar_body_effect [OF this] obtain s1 where
    b: "updateCompositebar_body s v = Return () s1"
      "viewletService s1 = viewletService s"
      "placeholderComposites s1 = placeholderComposites s"
      "pinnedIds (compositeBar s1) =
         pinnedIds (compositeBar s) \<union> (if pinsViewlet s (v_id v) then {v_id v} else {})"
      "c_id ` set (items (compositeBar s1)) = insert (v_id v) (c_id ` set (items (compositeBar s)))"
      "dom (compositeActions s1) = insert (v_id v) (dom (compositeActions s))"
    by (elim exE conjE) (rule that)
  have "set vls \<subseteq> set (viewlets (viewletService s1))"
    using Cons.prems b(2) by simp
  from Cons.IH [OF this] obtain s2 where
    l: "updateCompositebar_loop s1 vls = Return () s2"
      "viewletService s2 = viewletService s1"
      "placeholderComposites s2 = placeholderComposites s1"
      "pinnedIds (compositeBar s2) =
         pinnedIds (compositeBar s1) \<union> {i \<in> v_id ` set vls. pinsViewlet s1 i}"
      "c_id ` set (items (compositeBar s2)) = c_id ` set (items (compositeBar s1)) \<union> v_id ` set vls"
      "dom (compositeActions s2) = dom (compositeActions s1) \<union> v_id ` set vls"
    by (elim exE conjE) (rule that)
  have same: "pinsViewlet s1 = pinsViewlet s"
    by (simp add: pinsViewlet_def fun_eq_iff b(2,3))
  have "updateCompositebar_loop s (v # vls) = Return () s2"
    by (simp add: b(1) l(1))
  moreover have "pinnedIds (compositeBar s2) =
      pinnedIds (compositeBar s) \<union> {i \<in> v_id ` set (v # vls). pinsViewlet s i}"
    unfolding l(4) b(4) same by auto
  moreover have "c_id ` set (items (compositeBar s2)) =
      c_id ` set (items (compositeBar s)) \<union> v_id ` set (v # vls)"
    unfolding l(5) b(5) by auto
  moreover have "dom (compositeActions s2) = dom (compositeActions s) \<union> v_id ` set (v # vls)"
    unfolding l(6) b(6) by auto
  ultimately show ?case
    using b(2,3) l(2,3) by simp
qed

subsection \<open>Removing composites\<close>

lemma removeComposite_effect:
  "viewletService (removeComposite s i) = viewletService s \<and>
   placeholderComposites (removeComposite s i) = placeholderComposites s \<and>
   pinnedIds (compositeBar (removeComposite s i)) = pinnedIds (compositeBar s) \<and>
   c_id ` set (items (compositeBar (removeComposite s i))) = c_id ` set (items (compositeBar s)) - {i} \<and>
   dom (compositeActions (removeComposite s i)) = dom (compositeActions s) - {i}"
  by (auto simp: removeComposite_def Let_def ids_removeComposite CompositeBar_removeComposite_def
           split: option.splits)

lemma removeNotExisting_loop_effect:
  "viewletService (removeNotExistingPlaceholderComposites_loop vls s phs) = viewletService s \<and>
   placeholderComposites (removeNotExistingPlaceholderComposites_loop vls s phs) = placeholderComposites s \<and>
   pinnedIds (compositeBar (removeNotExistingPlaceholderComposites_loop vls s phs)) = pinnedIds (compositeBar s) \<and>
   c_id ` set (items (compositeBar (removeNotExistingPlaceholderComposites_loop vls s phs))) =
     c_id ` set (items (compositeBar s)) - (p_id ` set phs - v_id ` set vls) \<and>
   dom (compositeActions (removeNotExistingPlaceholderComposites_loop vls s phs)) =
     dom (compositeActions s) - (p_id ` set phs - v_id ` set vls)"
proof (induction phs arbitrary: s)
  case Nil
  then show ?case by simp
next
  case (Cons c phs)
  have live: "list_all (\<lambda>viewlet. v_id viewlet \<noteq> p_id c) vls \<longleftrightarrow> p_id c \<notin> v_id ` set vls"
    by (force simp: list_all_iff)
  show ?case
  proof (cases "p_id c \<in> v_id ` set vls")
    case True
    then have step: "removeNotExistingPlaceholderComposites_loop vls s (c # phs) =
                     removeNotExistingPlaceholderComposites_loop vls s phs"
      by (simp add: live)
    have sets: "A - (p_id ` set phs - v_id ` set vls) =
                A - (p_id ` set (c # phs) - v_id ` set vls)" for A
      using True by (simp only: list.set image_insert) blast
    show ?thesis
      unfolding step using Cons.IH [of s] by (simp only: sets)
  next
    case False
    let ?s1 = "removeComposite s (p_id c)"
    have step: "removeNotExistingPlaceholderComposites_loop vls s (c # phs) =
                removeNotExistingPlaceholderComposites_loop vls ?s1 phs"
      using False by (simp add: live)
    have sets: "A - {p_id c} - (p_id ` set phs - v_id ` set vls) =
                A - (p_id ` set (c # phs) - v_id ` set vls)" for A
      using False by (simp only: list.set image_insert) blast
    show ?thesis
      unfolding step
      using Cons.IH [of ?s1] removeComposite_effect [of s "p_id c"]
      by (simp only: sets)
  qed
qed

subsection \<open>The concrete states, computed\<close>

lemma ghostExample_eq:
  "ghostExample =
     \<lparr>viewletService = \<lparr>viewlets = [viewletA], activeViewlet = None\<rparr>, storageService = storedAB,
      compositeBar = emptyBar\<lparr>items := [\<lparr>c_id = ''A'', c_name = ''Alpha'', c_order = None\<rparr>,
                                         \<lparr>c_id = ''B'', c_name = ''B'', c_order = None\<rparr>]\<rparr>,
      globalActivityIdToActions = Map.empty,
      placeholderComposites = [\<lparr>p_id = ''A'', p_iconUrl = None\<rparr>, \<lparr>p_id = ''B'', p_iconUrl = None\<rparr>],
      compositeActions = [''A'' \<mapsto> liveActions viewletA]\<rparr>"
  by (simp add: ghostExample_def onDidViewletRegister_def new_ActivitybarPart_def noViewlets_def
      storedAB_def emptyBar_def viewletA_def updateCompositebar_def getViewlets_def
      updatePlaceholderComposites_def loadPlaceholderComposites_def PLACEHOLDER_VIEWLETS_def
      revive_iconUrl_def CompositeBar_addComposite_def updateCompositebar_body_def barItem_def
      enableCompositeActions_def getCompositeActions_def getViewlet_def getActiveViewlet_def
      CompositeBar_pin_def liveActions_def Let_def)

section \<open>The control pair of a composite\<close>

text \<open>
  Claim C7. \<^verbatim>\<open>getCompositeActions\<close> (the spec's \<^verbatim>\<open>getOrCreateControlPair\<close>) returns
  the pair the dictionary holds for the id, if there is one, and leaves the part as it is.
  Otherwise it builds the pair of a live viewlet if the viewlet service knows the id;
  otherwise the placeholder pair, with the icon of the first recorded placeholder of that
  id; otherwise, for an id that is neither live nor recorded as a placeholder, it fails:
  reading \<^verbatim>\<open>iconUrl\<close> of the missing placeholder throws, before anything is changed.
  That failure is the one the spec calls \<^verbatim>\<open>UnknownCompositeId\<close>.
\<close>

theorem getCompositeActions_cases:
  "(compositeActions s i = Some ca \<longrightarrow> getCompositeActions s i = Return ca s) \<and>
   (compositeActions s i = None \<and> getViewlet (viewletService s) i = Some v \<longrightarrow>
      getCompositeActions s i =
        Return (liveActions v) (s\<lparr>compositeActions := (compositeActions s)(i \<mapsto> liveActions v)\<rparr>)) \<and>
   (compositeActions s i = None \<and> getViewlet (viewletService s) i = None \<and>
    find (\<lambda>c. p_id c = i) (placeholderComposites s) = Some c \<longrightarrow>
      getCompositeActions s i =
        Return (placeholderActions i (p_iconUrl c))
          (s\<lparr>compositeActions := (compositeActions s)(i \<mapsto> placeholderActions i (p_iconUrl c))\<rparr>)) \<and>
   (compositeActions s i = None \<and> getViewlet (viewletService s) i = None \<and>
    i \<notin> p_id ` set (placeholderComposites s) \<longrightarrow>
      getCompositeActions s i = Throw TypeError s)"
proof -
  have absent: "find (\<lambda>c. p_id c = i) (placeholderComposites s) = None"
    if "i \<notin> p_id ` set (placeholderComposites s)"
    using that by (auto simp: find_None_iff)
  show ?thesis
    by (simp add: getCompositeActions_def liveActions_def placeholderActions_def filter_hd_find
          absent Let_def)
qed

theorem getCompositeActions_cases_witness:
  "getCompositeActions ((part [] [])\<lparr>compositeActions := [''git'' \<mapsto> liveActions git]\<rparr>) ''git''
     = Return (liveActions git) ((part [] [])\<lparr>compositeActions := [''git'' \<mapsto> liveActions git]\<rparr>) \<and>
   getCompositeActions (part [git] []) ''git''
     = Return (liveActions git) ((part [git] [])\<lparr>compositeActions := [''git'' \<mapsto> liveActions git]\<rparr>) \<and>
   getCompositeActions (part [] [gitPlaceholder]) ''git''
     = Return (placeholderActions ''git'' (Some (URI ''U1'')))
         ((part [] [gitPlaceholder])
            \<lparr>compositeActions := [''git'' \<mapsto> placeholderActions ''git'' (Some (URI ''U1''))]\<rparr>) \<and>
   getCompositeActions (part [] []) ''git'' = Throw TypeError (part [] [])"
  using getCompositeActions_cases
          [of "(part [] [])\<lparr>compositeActions := [''git'' \<mapsto> liveActions git]\<rparr>" "''git''" "liveActions git"]
        getCompositeActions_cases [of "part [git] []" "''git''" _ git]
        getCompositeActions_cases [of "part [] [gitPlaceholder]" "''git''" _ _ gitPlaceholder]
        getCompositeActions_cases [of "part [] []" "''git''"]
  by (simp add: part_def getViewlet_def git_def gitPlaceholder_def)

text \<open>
  Claim C1. The dictionary of control pairs maps an id to at most one pair; an access never
  replaces a pair that is there. When \<^verbatim>\<open>getCompositeActions\<close> returns a pair for an
  id, the dictionary holds exactly that pair under the id afterwards, the pairs of all
  other ids are untouched, an access that found a pair returned that very pair and changed
  nothing, and every later access returns the same pair again without changing the part.
\<close>

theorem getCompositeActions_once:
  "getCompositeActions s i = Return ca s' \<Longrightarrow>
     compositeActions s' i = Some ca \<and>
     getCompositeActions s' i = Return ca s' \<and>
     (\<forall>j. j \<noteq> i \<longrightarrow> compositeActions s' j = compositeActions s j) \<and>
     (\<forall>existing. compositeActions s i = Some existing \<longrightarrow> ca = existing \<and> s' = s)"
  by (auto simp: getCompositeActions_def Let_def split: option.splits list.splits)

theorem getCompositeActions_once_witness:
  "getCompositeActions (part [] [gitPlaceholder]) ''git'' =
     Return (placeholderActions ''git'' (Some (URI ''U1'')))
       ((part [] [gitPlaceholder])\<lparr>compositeActions := [''git'' \<mapsto> placeholderActions ''git'' (Some (URI ''U1''))]\<rparr>) \<and>
   getCompositeActions
       ((part [] [gitPlaceholder])\<lparr>compositeActions := [''git'' \<mapsto> placeholderActions ''git'' (Some (URI ''U1''))]\<rparr>)
       ''git'' =
     Return (placeholderActions ''git'' (Some (URI ''U1'')))
       ((part [] [gitPlaceholder])\<lparr>compositeActions := [''git'' \<mapsto> placeholderActions ''git'' (Some (URI ''U1''))]\<rparr>) \<and>
   compositeActions
       ((part [] [gitPlaceholder])\<lparr>compositeActions := [''git'' \<mapsto> placeholderActions ''git'' (Some (URI ''U1''))]\<rparr>)
       ''git'' = Some (placeholderActions ''git'' (Some (URI ''U1'')))"
proof -
  let ?s = "part [] [gitPlaceholder]"
  let ?ca = "placeholderActions ''git'' (Some (URI ''U1''))"
  let ?s' = "?s\<lparr>compositeActions := [''git'' \<mapsto> ?ca]\<rparr>"
  have first: "getCompositeActions ?s ''git'' = Return ?ca ?s'"
    by (simp add: getCompositeActions_def part_def gitPlaceholder_def getViewlet_def
          placeholderActions_def Let_def)
  from getCompositeActions_once [OF first] first show ?thesis
    by simp
qed

section \<open>Reconciliation once the extensions are registered\<close>

text \<open>
  Claim C2. \<^verbatim>\<open>onDidRegisterExtensions\<close> (the spec's
  \<^verbatim>\<open>reconcileAfterExtensionsReady\<close>) always returns, and afterwards every recorded
  placeholder id without a live descriptor has neither a control pair nor an entry in the
  composite bar, while every placeholder id with a live descriptor has both. In the session
  that started with the placeholders \<open>A\<close> and \<open>B\<close> and saw only \<open>A\<close> register, the bar
  then holds \<open>A\<close> and not \<open>B\<close>.
\<close>

theorem onDidRegisterExtensions_reconciles:
  "\<exists>s'. onDidRegisterExtensions s = Return () s' \<and>
     (\<forall>c \<in> set (placeholderComposites s).
        if getViewlet (viewletService s) (p_id c) = None
        then compositeActions s' (p_id c) = None \<and> findItem (compositeBar s') (p_id c) = None
        else compositeActions s' (p_id c) \<noteq> None \<and> findItem (compositeBar s') (p_id c) \<noteq> None)"
proof -
  let ?r = "removeNotExistingPlaceholderComposites s"
  let ?vls = "viewlets (viewletService s)"
  have r: "viewletService ?r = viewletService s"
    "c_id ` set (items (compositeBar ?r)) =
       c_id ` set (items (compositeBar s)) - (p_id ` set (placeholderComposites s) - v_id ` set ?vls)"
    "dom (compositeActions ?r) =
       dom (compositeActions s) - (p_id ` set (placeholderComposites s) - v_id ` set ?vls)"
    using removeNotExisting_loop_effect [of ?vls s "placeholderComposites s"]
    by (simp_all add: removeNotExistingPlaceholderComposites_def getViewlets_def)
  have "set ?vls \<subseteq> set (viewlets (viewletService ?r))"
    by (simp add: r(1))
  from updateCompositebar_loop_effect [OF this] obtain s' where
    u: "updateCompositebar_loop ?r ?vls = Return () s'"
      "c_id ` set (items (compositeBar s')) = c_id ` set (items (compositeBar ?r)) \<union> v_id ` set ?vls"
      "dom (compositeActions s') = dom (compositeActions ?r) \<union> v_id ` set ?vls"
    by (elim exE conjE) (rule that)
  have run: "onDidRegisterExtensions s = Return () s'"
    by (simp add: onDidRegisterExtensions_def updateCompositebar_def getViewlets_def r(1) u(1))
  have "compositeActions s' (p_id c) = None \<and> findItem (compositeBar s') (p_id c) = None"
    if "c \<in> set (placeholderComposites s)" "getViewlet (viewletService s) (p_id c) = None" for c
  proof -
    have "p_id c \<notin> v_id ` set ?vls"
      using that(2) by (simp add: getViewlet_None_iff)
    then have "p_id c \<notin> dom (compositeActions s')" "p_id c \<notin> c_id ` set (items (compositeBar s'))"
      using that(1) unfolding u(2,3) r(2,3) by auto
    then show ?thesis
      by (auto simp: findItem_None_iff)
  qed
  moreover have "compositeActions s' (p_id c) \<noteq> None \<and> findItem (compositeBar s') (p_id c) \<noteq> None"
    if "getViewlet (viewletService s) (p_id c) \<noteq> None" for c :: IPlaceholderComposite
  proof -
    have "p_id c \<in> v_id ` set ?vls"
      using that by (simp add: getViewlet_None_iff)
    then have "p_id c \<in> dom (compositeActions s')" "p_id c \<in> c_id ` set (items (compositeBar s'))"
      unfolding u(2,3) by auto
    then show ?thesis
      by (auto simp: findItem_None_iff)
  qed
  ultimately show ?thesis
    using run by auto
qed

theorem onDidRegisterExtensions_reconciles_witness:
  "map p_id (placeholderComposites ghostExample) = [''A'', ''B''] \<and>
   map v_id (getViewlets (viewletService ghostExample)) = [''A''] \<and>
   findItem (compositeBar ghostExample) ''B'' \<noteq> None \<and>
   compositeActions (stateOf (onDidRegisterExtensions ghostExample)) ''A'' \<noteq> None \<and>
   findItem (compositeBar (stateOf (onDidRegisterExtensions ghostExample))) ''A'' \<noteq> None \<and>
   compositeActions (stateOf (onDidRegisterExtensions ghostExample)) ''B'' = None \<and>
   findItem (compositeBar (stateOf (onDidRegisterExtensions ghostExample))) ''B'' = None"
proof -
  obtain s' where run: "onDidRegisterExtensions ghostExample = Return () s'"
    and each: "\<forall>c \<in> set (placeholderComposites ghostExample).
        if getViewlet (viewletService ghostExample) (p_id c) = None
        then compositeActions s' (p_id c) = None \<and> findItem (compositeBar s') (p_id c) = None
        else compositeActions s' (p_id c) \<noteq> None \<and> findItem (compositeBar s') (p_id c) \<noteq> None"
    using onDidRegisterExtensions_reconciles [of ghostExample] by (elim exE conjE) (rule that)
  have a: "compositeActions s' ''A'' \<noteq> None \<and> findItem (compositeBar s') ''A'' \<noteq> None"
    using each by (simp add: ghostExample_eq getViewlet_def viewletA_def)
  have b: "compositeActions s' ''B'' = None \<and> findItem (compositeBar s') ''B'' = None"
    using each by (simp add: ghostExample_eq getViewlet_def viewletA_def)
  have before: "map p_id (placeholderComposites ghostExample) = [''A'', ''B'']"
    "map v_id (getViewlets (viewletService ghostExample)) = [''A'']"
    "findItem (compositeBar ghostExample) ''B'' \<noteq> None"
    by (simp_all add: ghostExample_eq getViewlets_def viewletA_def findItem_def emptyBar_def)
  show ?thesis
    using a b before by (simp add: run)
qed

section \<open>Activity badges\<close>

text \<open>
  Claim C5. When the id given to \<^verbatim>\<open>showActivity\<close> is not the id of a live viewlet,
  a call without a badge throws \<^verbatim>\<open>illegalArgument('badge')\<close> (the spec's
  \<^verbatim>\<open>MissingBadge\<close>), and a call with a badge for an id under which no global activity
  action is filed throws \<^verbatim>\<open>illegalArgument('globalActivityId')\<close> (the spec's
  \<^verbatim>\<open>UnknownActivityId\<close>). In both cases the part is, at the throw, exactly as it was
  before the call: neither the composite bar nor any badge has changed.
\<close>

theorem showActivity_global_failures:
  "getViewlet (viewletService s) i = None \<Longrightarrow>
     showActivity s i None clazz priority = Throw (illegalArgument ''badge'') s \<and>
     (globalActivityIdToActions s i = None \<longrightarrow>
        showActivity s i (Some b) clazz priority = Throw (illegalArgument ''globalActivityId'') s)"
  by (simp add: showActivity_def showGlobalActivity_def)

theorem showActivity_global_failures_witness:
  "showActivity withGlobalX ''globalX'' None None None = Throw (illegalArgument ''badge'') withGlobalX \<and>
   showActivity withGlobalX ''unknown'' (Some (IBadge ''5'')) (Some ''warn'') (Some 1) =
     Throw (illegalArgument ''globalActivityId'') withGlobalX"
proof -
  have notLive: "getViewlet (viewletService withGlobalX) ''globalX'' = None"
    "getViewlet (viewletService withGlobalX) ''unknown'' = None"
    by (simp_all add: withGlobalX_def createGlobalActivityActionBar_def part_def getViewlet_def git_def)
  have notGlobal: "globalActivityIdToActions withGlobalX ''unknown'' = None"
    by (simp add: withGlobalX_def createGlobalActivityActionBar_def part_def)
  show ?thesis
    using showActivity_global_failures [OF notLive(1), of None None]
          showActivity_global_failures [OF notLive(2), of "Some ''warn''" "Some 1" "IBadge ''5''"]
          notGlobal
    by simp
qed

text \<open>
  Claim C6. A call of \<^verbatim>\<open>showActivity\<close> that goes to a global activity and returns
  has set the badge and hands back a disposable. Disposing it once leaves the badge of
  that activity absent; disposing it again changes nothing, so the badge stays absent.
  Disposing never throws, and disposing twice is the same as disposing once in whatever
  state the part is.
\<close>

theorem global_badge_release_idempotent:
  "getViewlet (viewletService s) i = None \<Longrightarrow>
   showActivity s i badge clazz priority = Return h s1 \<Longrightarrow>
     map_option g_badge (globalActivityIdToActions s1 i) = Some badge \<and>
     map_option g_badge (globalActivityIdToActions (dispose h s1) i) = Some None \<and>
     dispose h (dispose h s1) = dispose h s1 \<and>
     (\<forall>t. dispose h (dispose h t) = dispose h t)"
proof -
  assume route: "getViewlet (viewletService s) i = None"
    and ret: "showActivity s i badge clazz priority = Return h s1"
  from ret route obtain b action where
    b: "badge = Some b" and a: "globalActivityIdToActions s i = Some action"
    and h: "h = GlobalBadgeDisposable i"
    and s1: "s1 = s\<lparr>globalActivityIdToActions :=
                     (globalActivityIdToActions s)(i \<mapsto> setBadge action (Some b) clazz)\<rparr>"
    by (auto simp: showActivity_def showGlobalActivity_def split: option.splits)
  have twice: "dispose h (dispose h t) = dispose h t" for t
    by (cases "globalActivityIdToActions t i") (simp_all add: h setBadge_def)
  have "map_option g_badge (globalActivityIdToActions s1 i) = Some badge"
    by (simp add: s1 b setBadge_def)
  moreover have "map_option g_badge (globalActivityIdToActions (dispose h s1) i) = Some None"
    by (simp add: s1 h setBadge_def)
  ultimately show ?thesis
    using twice by simp
qed

theorem global_badge_release_idempotent_witness:
  "valueOf (showActivity withGlobalX ''globalX'' (Some (IBadge ''5'')) None None) =
     GlobalBadgeDisposable ''globalX'' \<and>
   map_option g_badge
     (globalActivityIdToActions (stateOf (showActivity withGlobalX ''globalX'' (Some (IBadge ''5'')) None None))
        ''globalX'') = Some (Some (IBadge ''5'')) \<and>
   map_option g_badge
     (globalActivityIdToActions
        (dispose (GlobalBadgeDisposable ''globalX'')
           (stateOf (showActivity withGlobalX ''globalX'' (Some (IBadge ''5'')) None None)))
        ''globalX'') = Some None \<and>
   dispose (GlobalBadgeDisposable ''globalX'')
     (dispose (GlobalBadgeDisposable ''globalX'')
        (stateOf (showActivity withGlobalX ''globalX'' (Some (IBadge ''5'')) None None))) =
   dispose (GlobalBadgeDisposable ''globalX'')
     (stateOf (showActivity withGlobalX ''globalX'' (Some (IBadge ''5'')) None None))"
proof -
  let ?r = "showActivity withGlobalX ''globalX'' (Some (IBadge ''5'')) None None"
  have notLive: "getViewlet (viewletService withGlobalX) ''globalX'' = None"
    by (simp add: withGlobalX_def createGlobalActivityActionBar_def part_def getViewlet_def git_def)
  have ret: "?r = Return (GlobalBadgeDisposable ''globalX'') (stateOf ?r)"
    by (simp add: showActivity_def showGlobalActivity_def withGlobalX_def
          createGlobalActivityActionBar_def part_def getViewlet_def git_def)
  have "valueOf ?r = GlobalBadgeDisposable ''globalX''"
    by (subst ret) simp
  then show ?thesis
    using global_badge_release_idempotent [OF notLive ret] by simp
qed

text \<open>
  Claim C10. When the id given to \<^verbatim>\<open>showActivity\<close> is the id of a live viewlet, the
  call is handed to the composite bar with the arguments as they came: the result is the
  disposable and the bar that \<^verbatim>\<open>CompositeBar.showActivity\<close> gives back. The part checks
  nothing on this route, so a call without a badge does not throw here, and the global
  activities are not touched even if one of them carries the same id.
\<close>

theorem showActivity_live_delegates:
  "getViewlet (viewletService s) i = Some v \<Longrightarrow>
     showActivity s i badge clazz priority =
       Return (fst (CompositeBar_showActivity (compositeBar s) i badge clazz priority))
         (s\<lparr>compositeBar := snd (CompositeBar_showActivity (compositeBar s) i badge clazz priority)\<rparr>) \<and>
     globalActivityIdToActions (stateOf (showActivity s i badge clazz priority)) =
       globalActivityIdToActions s \<and>
     (\<forall>e t. showActivity s i None clazz priority \<noteq> Throw e t)"
  by (simp add: showActivity_def split: prod.splits)

theorem showActivity_live_delegates_witness:
  "showActivity bothRoutes ''git'' None None None =
     Return (CompositeActivityDisposable ''git'' \<lparr>a_badge = None, a_clazz = None, a_priority = None\<rparr>)
       (bothRoutes\<lparr>compositeBar :=
          emptyBar\<lparr>activities := [(''git'', \<lparr>a_badge = None, a_clazz = None, a_priority = None\<rparr>)]\<rparr>\<rparr>) \<and>
   map_option g_badge (globalActivityIdToActions bothRoutes ''git'') = Some None \<and>
   map_option g_badge
     (globalActivityIdToActions (stateOf (showActivity bothRoutes ''git'' (Some (IBadge ''5'')) None None))
        ''git'') = Some None"
proof -
  have live: "getViewlet (viewletService bothRoutes) ''git'' = Some git"
    by (simp add: bothRoutes_def createGlobalActivityActionBar_def part_def getViewlet_def git_def)
  have bar: "compositeBar bothRoutes = emptyBar"
    by (simp add: bothRoutes_def createGlobalActivityActionBar_def part_def)
  have global: "map_option g_badge (globalActivityIdToActions bothRoutes ''git'') = Some None"
    by (simp add: bothRoutes_def createGlobalActivityActionBar_def part_def)
  show ?thesis
    using showActivity_live_delegates [OF live, of None None None]
          showActivity_live_delegates [OF live, of "Some (IBadge ''5'')" None None]
          global
    by (simp add: bar CompositeBar_showActivity_def emptyBar_def Let_def)
qed

section \<open>Pinning by default\<close>

lemma updateCompositebar_pinned:
  "\<exists>s'. updateCompositebar s = Return () s' \<and>
     pinnedIds (compositeBar s') =
       pinnedIds (compositeBar s) \<union> {i \<in> v_id ` set (viewlets (viewletService s)). pinsViewlet s i}"
proof -
  have "set (viewlets (viewletService s)) \<subseteq> set (viewlets (viewletService s))"
    by simp
  from updateCompositebar_loop_effect [OF this] show ?thesis
    unfolding updateCompositebar_def getViewlets_def by (elim exE conjE) (rule exI, simp)
qed

subsection \<open>The active entry of the composite bar\<close>

lemma activeItem_addComposite: "activeItem (CompositeBar_addComposite cb e) = activeItem cb"
  by (simp add: CompositeBar_addComposite_def)

lemma updateCompositebar_body_active:
  assumes "v \<in> set (viewlets (viewletService s))"
  shows "activeItem (compositeBar (stateOf (updateCompositebar_body s v))) =
           (if getActiveViewlet (viewletService s) = Some (v_id v) then Some (v_id v)
            else activeItem (compositeBar s))"
proof -
  let ?s1 = "s\<lparr>compositeBar := CompositeBar_addComposite (compositeBar s) (barItem v)\<rparr>"
  let ?s2 = "if list_all (\<lambda>c. p_id c \<noteq> v_id v) (placeholderComposites ?s1)
             then ?s1\<lparr>compositeBar := CompositeBar_pin (compositeBar ?s1) (v_id v)\<rparr> else ?s1"
  have live: "v \<in> set (viewlets (viewletService ?s2))"
    using assms by simp
  obtain ca where en: "enableCompositeActions ?s2 v =
      Return () (?s2\<lparr>compositeActions := (compositeActions ?s2)(v_id v \<mapsto> ca)\<rparr>)"
    using enableCompositeActions_live [OF live] by blast
  show ?thesis
    unfolding updateCompositebar_body_def Let_def en
    by (simp add: CompositeBar_pin_def CompositeBar_activateComposite_def activeItem_addComposite)
qed

lemma updateCompositebar_loop_active:
  "set vls \<subseteq> set (viewlets (viewletService s)) \<Longrightarrow>
   activeItem (compositeBar (stateOf (updateCompositebar_loop s vls))) =
     (if getActiveViewlet (viewletService s) \<in> Some ` v_id ` set vls
      then getActiveViewlet (viewletService s)
      else activeItem (compositeBar s))"
proof (induction vls arbitrary: s)
  case Nil
  then show ?case by simp
next
  case (Cons v vls)
  then have live: "v \<in> set (viewlets (viewletService s))" by simp
  from updateCompositebar_body_effect [OF live] obtain s1 where
    b: "updateCompositebar_body s v = Return () s1" "viewletService s1 = viewletService s"
    by (elim exE conjE) (rule that)
  have act1: "activeItem (compositeBar s1) =
      (if getActiveViewlet (viewletService s) = Some (v_id v) then Some (v_id v)
       else activeItem (compositeBar s))"
    using updateCompositebar_body_active [OF live] by (simp add: b(1))
  have "set vls \<subseteq> set (viewlets (viewletService s1))"
    using Cons.prems b(2) by simp
  from Cons.IH [OF this]
  have rest: "activeItem (compositeBar (stateOf (updateCompositebar_loop s1 vls))) =
      (if getActiveViewlet (viewletService s) \<in> Some ` v_id ` set vls
       then getActiveViewlet (viewletService s)
       else activeItem (compositeBar s1))"
    by (simp add: b(2))
  have step: "updateCompositebar_loop s (v # vls) = updateCompositebar_loop s1 vls"
    by (simp add: b(1))
  show ?case
    unfolding step rest act1 by auto
qed

text \<open>
  Claim C3, as the code has it. \<^verbatim>\<open>updateCompositebar\<close> always returns. Afterwards a
  viewlet without a recorded placeholder is pinned. The active viewlet is pinned and is
  the active entry of the composite bar, whether a placeholder is recorded for it or not.
  A viewlet with a recorded placeholder that is not the active one is pinned exactly if
  the composite bar marked it pinned before. When no live viewlet is the active one, the
  active entry of the bar stays as it was.
\<close>

theorem updateCompositebar_pin_policy:
  "\<exists>s'. updateCompositebar s = Return () s' \<and>
     (\<forall>viewlet \<in> set (getViewlets (viewletService s)).
        (v_id viewlet \<notin> p_id ` set (placeholderComposites s) \<longrightarrow>
           CompositeBar_isPinned (compositeBar s') (v_id viewlet)) \<and>
        (getActiveViewlet (viewletService s) = Some (v_id viewlet) \<longrightarrow>
           CompositeBar_isPinned (compositeBar s') (v_id viewlet) \<and>
           activeItem (compositeBar s') = Some (v_id viewlet)) \<and>
        (v_id viewlet \<in> p_id ` set (placeholderComposites s) \<and>
         getActiveViewlet (viewletService s) \<noteq> Some (v_id viewlet) \<longrightarrow>
           CompositeBar_isPinned (compositeBar s') (v_id viewlet) =
           CompositeBar_isPinned (compositeBar s) (v_id viewlet))) \<and>
     (getActiveViewlet (viewletService s) \<notin> Some ` v_id ` set (getViewlets (viewletService s)) \<longrightarrow>
        activeItem (compositeBar s') = activeItem (compositeBar s))"
proof -
  obtain s' where run: "updateCompositebar s = Return () s'"
    and pinned: "pinnedIds (compositeBar s') =
       pinnedIds (compositeBar s) \<union> {i \<in> v_id ` set (viewlets (viewletService s)). pinsViewlet s i}"
    using updateCompositebar_pinned [of s] by (elim exE conjE) (rule that)
  have "set (viewlets (viewletService s)) \<subseteq> set (viewlets (viewletService s))"
    by simp
  from updateCompositebar_loop_active [OF this]
  have active: "activeItem (compositeBar s') =
      (if getActiveViewlet (viewletService s) \<in> Some ` v_id ` set (viewlets (viewletService s))
       then getActiveViewlet (viewletService s)
       else activeItem (compositeBar s))"
    using run by (simp add: updateCompositebar_def getViewlets_def)
  have "CompositeBar_isPinned (compositeBar s') (v_id viewlet)"
    if "viewlet \<in> set (viewlets (viewletService s))" "pinsViewlet s (v_id viewlet)" for viewlet
    using that by (simp add: CompositeBar_isPinned_def pinned)
  moreover have "CompositeBar_isPinned (compositeBar s') i = CompositeBar_isPinned (compositeBar s) i"
    if "\<not> pinsViewlet s i" for i
    using that by (simp add: CompositeBar_isPinned_def pinned)
  moreover have "activeItem (compositeBar s') = Some (v_id viewlet)"
    if "viewlet \<in> set (viewlets (viewletService s))"
       "getActiveViewlet (viewletService s) = Some (v_id viewlet)" for viewlet
    using that by (simp add: active)
  moreover have "activeItem (compositeBar s') = activeItem (compositeBar s)"
    if "getActiveViewlet (viewletService s) \<notin> Some ` v_id ` set (viewlets (viewletService s))"
    using that by (simp add: active)
  ultimately show ?thesis
    using run by (simp add: pinsViewlet_def getViewlets_def)
qed

theorem updateCompositebar_pin_policy_witness:
  "CompositeBar_isPinned
     (compositeBar (stateOf (updateCompositebar (part [git, viewletA] [gitPlaceholder])))) ''A'' \<and>
   \<not> CompositeBar_isPinned
     (compositeBar (stateOf (updateCompositebar (part [git, viewletA] [gitPlaceholder])))) ''git'' \<and>
   activeItem (compositeBar (stateOf (updateCompositebar (part [git, viewletA] [gitPlaceholder])))) = None \<and>
   CompositeBar_isPinned (compositeBar (stateOf (updateCompositebar activeGit))) ''git'' \<and>
   activeItem (compositeBar (stateOf (updateCompositebar activeGit))) = Some ''git''"
proof -
  let ?s = "part [git, viewletA] [gitPlaceholder]"
  obtain s1 where run1: "updateCompositebar ?s = Return () s1"
    and each1: "\<forall>viewlet \<in> set (getViewlets (viewletService ?s)).
        (v_id viewlet \<notin> p_id ` set (placeholderComposites ?s) \<longrightarrow>
           CompositeBar_isPinned (compositeBar s1) (v_id viewlet)) \<and>
        (getActiveViewlet (viewletService ?s) = Some (v_id viewlet) \<longrightarrow>
           CompositeBar_isPinned (compositeBar s1) (v_id viewlet) \<and>
           activeItem (compositeBar s1) = Some (v_id viewlet)) \<and>
        (v_id viewlet \<in> p_id ` set (placeholderComposites ?s) \<and>
         getActiveViewlet (viewletService ?s) \<noteq> Some (v_id viewlet) \<longrightarrow>
           CompositeBar_isPinned (compositeBar s1) (v_id viewlet) =
           CompositeBar_isPinned (compositeBar ?s) (v_id viewlet))"
    and idle1: "getActiveViewlet (viewletService ?s) \<notin> Some ` v_id ` set (getViewlets (viewletService ?s)) \<longrightarrow>
        activeItem (compositeBar s1) = activeItem (compositeBar ?s)"
    using updateCompositebar_pin_policy [of ?s] by (elim exE conjE) (rule that)
  obtain s2 where run2: "updateCompositebar activeGit = Return () s2"
    and each2: "\<forall>viewlet \<in> set (getViewlets (viewletService activeGit)).
        (v_id viewlet \<notin> p_id ` set (placeholderComposites activeGit) \<longrightarrow>
           CompositeBar_isPinned (compositeBar s2) (v_id viewlet)) \<and>
        (getActiveViewlet (viewletService activeGit) = Some (v_id viewlet) \<longrightarrow>
           CompositeBar_isPinned (compositeBar s2) (v_id viewlet) \<and>
           activeItem (compositeBar s2) = Some (v_id viewlet)) \<and>
        (v_id viewlet \<in> p_id ` set (placeholderComposites activeGit) \<and>
         getActiveViewlet (viewletService activeGit) \<noteq> Some (v_id viewlet) \<longrightarrow>
           CompositeBar_isPinned (compositeBar s2) (v_id viewlet) =
           CompositeBar_isPinned (compositeBar activeGit) (v_id viewlet))"
    using updateCompositebar_pin_policy [of activeGit] by (elim exE conjE) (rule that)
  have a: "CompositeBar_isPinned (compositeBar s1) ''A''"
    and g: "\<not> CompositeBar_isPinned (compositeBar s1) ''git''"
    using each1
    by (simp_all add: part_def getViewlets_def getActiveViewlet_def git_def viewletA_def
          gitPlaceholder_def CompositeBar_isPinned_def emptyBar_def)
  have idle: "activeItem (compositeBar s1) = None"
    using idle1 by (simp add: part_def getViewlets_def getActiveViewlet_def emptyBar_def)
  have act: "CompositeBar_isPinned (compositeBar s2) ''git'' \<and> activeItem (compositeBar s2) = Some ''git''"
    using each2
    by (simp add: activeGit_def part_def getViewlets_def getActiveViewlet_def git_def)
  show ?thesis
    using a g idle act by (simp add: run1 run2)
qed

text \<open>
  The claim as the spec words it fails for the active viewlet: \<open>git\<close> has a placeholder on
  record and the composite bar does not mark it pinned, yet after
  \<^verbatim>\<open>updateCompositebar\<close> it is pinned (and activated), by the two calls the loop makes
  for the active viewlet.
\<close>

theorem updateCompositebar_pins_active_placeholder:
  "map v_id (getViewlets (viewletService activeGit)) = [''git''] \<and>
   map p_id (placeholderComposites activeGit) = [''git''] \<and>
   \<not> CompositeBar_isPinned (compositeBar activeGit) ''git'' \<and>
   updateCompositebar activeGit =
     Return ()
       (activeGit\<lparr>compositeBar :=
                    emptyBar\<lparr>items := [\<lparr>c_id = ''git'', c_name = ''Source Control'', c_order = Some 2\<rparr>],
                             pinnedIds := {''git''}, activeItem := Some ''git''\<rparr>,
                  compositeActions := [''git'' \<mapsto> liveActions git]\<rparr>) \<and>
   CompositeBar_isPinned (compositeBar (stateOf (updateCompositebar activeGit))) ''git''"
proof -
  have run: "updateCompositebar activeGit =
     Return ()
       (activeGit\<lparr>compositeBar :=
                    emptyBar\<lparr>items := [\<lparr>c_id = ''git'', c_name = ''Source Control'', c_order = Some 2\<rparr>],
                             pinnedIds := {''git''}, activeItem := Some ''git''\<rparr>,
                  compositeActions := [''git'' \<mapsto> liveActions git]\<rparr>)"
    by (simp add: activeGit_def part_def updateCompositebar_def getViewlets_def
          updateCompositebar_body_def enableCompositeActions_def getCompositeActions_def
          getViewlet_def getActiveViewlet_def git_def gitPlaceholder_def barItem_def
          CompositeBar_addComposite_def CompositeBar_pin_def CompositeBar_activateComposite_def
          emptyBar_def liveActions_def Let_def)
  show ?thesis
    unfolding run
    by (simp add: activeGit_def part_def getViewlets_def git_def gitPlaceholder_def
          CompositeBar_isPinned_def emptyBar_def)
qed

section \<open>Seeding the composite bar with placeholders\<close>

lemma find_replaced:
  "find (\<lambda>x. c_id x = i) (map (\<lambda>x. if c_id x = c_id e then e else x) xs) =
     (if i = c_id e then (if list_ex (\<lambda>x. c_id x = c_id e) xs then Some e else None)
      else find (\<lambda>x. c_id x = i) xs)"
  by (induction xs) auto

lemma find_appended:
  "find P (xs @ [e]) = (case find P xs of Some y \<Rightarrow> Some y | None \<Rightarrow> if P e then Some e else None)"
  by (induction xs) auto

lemma findItem_addComposite:
  "findItem (CompositeBar_addComposite cb e) i = (if i = c_id e then Some e else findItem cb i)"
proof (cases "list_ex (\<lambda>x. c_id x = c_id e) (items cb)")
  case True
  then show ?thesis
    by (simp add: findItem_def CompositeBar_addComposite_def find_replaced)
next
  case False
  then have "find (\<lambda>x. c_id x = c_id e) (items cb) = None"
    by (simp add: find_None_iff list_ex_iff)
  with False show ?thesis
    by (auto simp: findItem_def CompositeBar_addComposite_def find_appended split: option.splits)
qed

lemma updatePlaceholderComposites_loop_frame:
  "updatePlaceholderComposites_loop vls s phs =
     s\<lparr>compositeBar := (compositeBar s)\<lparr>items := items (compositeBar (updatePlaceholderComposites_loop vls s phs))\<rparr>\<rparr>"
proof (induction phs arbitrary: s)
  case Nil
  then show ?case by simp
next
  case (Cons c phs)
  let ?s1 = "s\<lparr>compositeBar := CompositeBar_addComposite (compositeBar s)
                 \<lparr>c_id = p_id c, c_name = p_id c, c_order = None\<rparr>\<rparr>"
  show ?case
  proof (cases "list_all (\<lambda>viewlet. v_id viewlet \<noteq> p_id c) vls")
    case True
    then have step: "updatePlaceholderComposites_loop vls s (c # phs) =
                     updatePlaceholderComposites_loop vls ?s1 phs"
      by simp
    show ?thesis
      unfolding step by (subst Cons.IH [of ?s1]) (simp add: CompositeBar_addComposite_def)
  next
    case False
    then have step: "updatePlaceholderComposites_loop vls s (c # phs) =
                     updatePlaceholderComposites_loop vls s phs"
      by simp
    show ?thesis
      unfolding step by (rule Cons.IH)
  qed
qed

lemma updatePlaceholderComposites_loop_items:
  "findItem (compositeBar (updatePlaceholderComposites_loop vls s phs)) i =
     (if i \<in> p_id ` set phs - v_id ` set vls
      then Some \<lparr>c_id = i, c_name = i, c_order = None\<rparr>
      else findItem (compositeBar s) i)"
proof (induction phs arbitrary: s)
  case Nil
  then show ?case by simp
next
  case (Cons c phs)
  have live: "list_all (\<lambda>viewlet. v_id viewlet \<noteq> p_id c) vls \<longleftrightarrow> p_id c \<notin> v_id ` set vls"
    by (force simp: list_all_iff)
  show ?case
  proof (cases "p_id c \<in> v_id ` set vls")
    case True
    then show ?thesis
      using Cons.IH [of s] by (auto simp: live)
  next
    case False
    let ?s1 = "s\<lparr>compositeBar := CompositeBar_addComposite (compositeBar s)
                   \<lparr>c_id = p_id c, c_name = p_id c, c_order = None\<rparr>\<rparr>"
    have step: "updatePlaceholderComposites_loop vls s (c # phs) =
                updatePlaceholderComposites_loop vls ?s1 phs"
      using False by (simp add: live)
    show ?thesis
      unfolding step Cons.IH [of ?s1] using False
      by (auto simp: findItem_addComposite)
  qed
qed

text \<open>
  Claim C8, as the code has it. \<^verbatim>\<open>updatePlaceholderComposites\<close> (the spec's
  \<^verbatim>\<open>seedPlaceholders\<close>) gives the composite bar, for every recorded placeholder id without
  a live descriptor, the entry \<^verbatim>\<open>{ id, name: id, order: undefined }\<close>. The entries of all
  other ids stay as they were, and nothing but the entries of the bar changes. The icon of
  the placeholder is not part of the entry; it reaches the bar only through the control
  pair that \<^verbatim>\<open>getCompositeActions\<close> builds.
\<close>

theorem updatePlaceholderComposites_seeds:
  "(\<forall>c \<in> set (placeholderComposites s).
      getViewlet (viewletService s) (p_id c) = None \<longrightarrow>
        findItem (compositeBar (updatePlaceholderComposites s)) (p_id c) =
          Some \<lparr>c_id = p_id c, c_name = p_id c, c_order = None\<rparr>) \<and>
   (\<forall>i. i \<notin> p_id ` set (placeholderComposites s) \<or> getViewlet (viewletService s) i \<noteq> None \<longrightarrow>
      findItem (compositeBar (updatePlaceholderComposites s)) i = findItem (compositeBar s) i) \<and>
   updatePlaceholderComposites s =
     s\<lparr>compositeBar := (compositeBar s)\<lparr>items := items (compositeBar (updatePlaceholderComposites s))\<rparr>\<rparr>"
proof -
  have frame: "updatePlaceholderComposites s =
      s\<lparr>compositeBar := (compositeBar s)\<lparr>items := items (compositeBar (updatePlaceholderComposites s))\<rparr>\<rparr>"
    unfolding updatePlaceholderComposites_def by (rule updatePlaceholderComposites_loop_frame)
  have each: "findItem (compositeBar (updatePlaceholderComposites s)) i =
      (if i \<in> p_id ` set (placeholderComposites s) \<and> getViewlet (viewletService s) i = None
       then Some \<lparr>c_id = i, c_name = i, c_order = None\<rparr>
       else findItem (compositeBar s) i)" for i
    by (simp add: updatePlaceholderComposites_def getViewlets_def updatePlaceholderComposites_loop_items
          getViewlet_None_iff)
  have "findItem (compositeBar (updatePlaceholderComposites s)) (p_id c) =
          Some \<lparr>c_id = p_id c, c_name = p_id c, c_order = None\<rparr>"
    if "c \<in> set (placeholderComposites s)" "getViewlet (viewletService s) (p_id c) = None" for c
    using that by (simp add: each)
  moreover have "findItem (compositeBar (updatePlaceholderComposites s)) i = findItem (compositeBar s) i"
    if "i \<notin> p_id ` set (placeholderComposites s) \<or> getViewlet (viewletService s) i \<noteq> None" for i
    using that by (auto simp: each)
  ultimately show ?thesis
    using frame by blast
qed

theorem updatePlaceholderComposites_seeds_witness:
  "findItem (compositeBar (updatePlaceholderComposites (part [viewletA] [gitPlaceholder, \<lparr>p_id = ''A'', p_iconUrl = None\<rparr>])))
     ''git'' = Some \<lparr>c_id = ''git'', c_name = ''git'', c_order = None\<rparr> \<and>
   findItem (compositeBar (updatePlaceholderComposites (part [viewletA] [gitPlaceholder, \<lparr>p_id = ''A'', p_iconUrl = None\<rparr>])))
     ''A'' = None"
proof -
  let ?s = "part [viewletA] [gitPlaceholder, \<lparr>p_id = ''A'', p_iconUrl = None\<rparr>]"
  have ghost: "gitPlaceholder \<in> set (placeholderComposites ?s)"
    "getViewlet (viewletService ?s) (p_id gitPlaceholder) = None"
    by (simp_all add: part_def getViewlet_def gitPlaceholder_def viewletA_def)
  have live: "getViewlet (viewletService ?s) ''A'' \<noteq> None" "findItem (compositeBar ?s) ''A'' = None"
    by (simp_all add: part_def getViewlet_def viewletA_def findItem_def emptyBar_def)
  from updatePlaceholderComposites_seeds [of ?s] ghost live show ?thesis
    by (auto simp: gitPlaceholder_def)
qed

text \<open>
  The claim as the spec words it fails. The session that ended with \<open>git\<close> live under the
  name \<open>Source Control\<close> stores only the id and the icon; the bar entry of the next session
  is named by the id, and it is the same entry whether the placeholder has an icon or not.
\<close>

theorem seeded_entry_has_no_cached_name_or_icon:
  "v_name git = ''Source Control'' \<and>
   placeholderComposites (stateOf restartAfterGit) = [gitPlaceholder] \<and>
   items (compositeBar (stateOf restartAfterGit)) = [\<lparr>c_id = ''git'', c_name = ''git'', c_order = None\<rparr>] \<and>
   compositeBar (updatePlaceholderComposites (part [] [\<lparr>p_id = ''git'', p_iconUrl = Some (URI ''U1'')\<rparr>])) =
   compositeBar (updatePlaceholderComposites (part [] [\<lparr>p_id = ''git'', p_iconUrl = None\<rparr>]))"
  by (simp add: restartAfterGit_def new_ActivitybarPart_def noViewlets_def shutdown_def part_def
        git_def gitPlaceholder_def getViewlets_def updateCompositebar_def
        updatePlaceholderComposites_def loadPlaceholderComposites_def PLACEHOLDER_VIEWLETS_def
        stringify_iconUrl_def revive_iconUrl_def CompositeBar_addComposite_def emptyBar_def Let_def)

section \<open>The pinned viewlets\<close>

lemma hostOrderExample_eq:
  "hostOrderExample =
     \<lparr>viewletService = \<lparr>viewlets = [viewletA, viewletB], activeViewlet = None\<rparr>,
      storageService = storedBA,
      compositeBar = emptyBar\<lparr>items := [\<lparr>c_id = ''B'', c_name = ''Beta'', c_order = None\<rparr>,
                                         \<lparr>c_id = ''A'', c_name = ''Alpha'', c_order = None\<rparr>],
                              pinnedIds := {''A'', ''B''}\<rparr>,
      globalActivityIdToActions = Map.empty,
      placeholderComposites = [\<lparr>p_id = ''B'', p_iconUrl = None\<rparr>, \<lparr>p_id = ''A'', p_iconUrl = None\<rparr>],
      compositeActions = [''A'' \<mapsto> liveActions viewletA, ''B'' \<mapsto> liveActions viewletB]\<rparr>"
  by (simp add: hostOrderExample_def onDidViewletRegister_def new_ActivitybarPart_def noViewlets_def
      storedBA_def emptyBar_def viewletA_def viewletB_def updateCompositebar_def getViewlets_def
      updatePlaceholderComposites_def loadPlaceholderComposites_def PLACEHOLDER_VIEWLETS_def
      revive_iconUrl_def CompositeBar_addComposite_def updateCompositebar_body_def barItem_def
      enableCompositeActions_def getCompositeActions_def getViewlet_def getActiveViewlet_def
      CompositeBar_pin_def liveActions_def Let_def)

lemma freshExample_eq:
  "freshExample =
     (part [git, viewletA] [])
       \<lparr>compositeBar := emptyBar\<lparr>items := [barItem git, barItem viewletA], pinnedIds := {''git'', ''A''}\<rparr>,
        compositeActions := [''git'' \<mapsto> liveActions git, ''A'' \<mapsto> liveActions viewletA]\<rparr>"
  by (simp add: freshExample_def part_def emptyBar_def git_def viewletA_def updateCompositebar_def
      getViewlets_def CompositeBar_addComposite_def updateCompositebar_body_def barItem_def
      enableCompositeActions_def getCompositeActions_def getViewlet_def getActiveViewlet_def
      CompositeBar_pin_def liveActions_def Let_def insert_commute)

text \<open>
  Claim C9, as the code has it. \<^verbatim>\<open>getPinned\<close> returns the ids of the live viewlets in
  the order in which the viewlet service lists them, without those the composite bar does
  not mark pinned, and it returns the part unchanged. These are exactly the live ids that
  are marked pinned; when every live viewlet has an entry in the bar they are the ids of
  the spec's listing as a set, but the order is the viewlet service's, not the bar's.
\<close>

theorem getPinned_registration_order:
  "getPinned s =
     Return (filter (\<lambda>i. CompositeBar_isPinned (compositeBar s) i) (map v_id (getViewlets (viewletService s)))) s \<and>
   set (valueOf (getPinned s)) =
     {i \<in> v_id ` set (getViewlets (viewletService s)). CompositeBar_isPinned (compositeBar s) i} \<and>
   (v_id ` set (getViewlets (viewletService s)) \<subseteq> c_id ` set (items (compositeBar s)) \<longrightarrow>
      set (getPinnedIds_spec s) = set (valueOf (getPinned s)))"
proof -
  have "set (getPinnedIds_spec s) = set (valueOf (getPinned s))"
    if "v_id ` set (getViewlets (viewletService s)) \<subseteq> c_id ` set (items (compositeBar s))"
    using that by (auto simp: getPinnedIds_spec_def getPinned_def getViewlets_def getViewlet_None_iff)
  then show ?thesis
    by (auto simp: getPinned_def)
qed

theorem getPinned_registration_order_witness:
  "getPinned freshExample = Return [''git'', ''A''] freshExample \<and>
   set (getPinnedIds_spec freshExample) = {''git'', ''A''}"
proof -
  have sub: "v_id ` set (getViewlets (viewletService freshExample)) \<subseteq>
             c_id ` set (items (compositeBar freshExample))"
    by (simp add: freshExample_eq part_def getViewlets_def emptyBar_def barItem_def)
  have pinned: "filter (\<lambda>i. CompositeBar_isPinned (compositeBar freshExample) i)
                  (map v_id (getViewlets (viewletService freshExample))) = [''git'', ''A'']"
    by (simp add: freshExample_eq part_def getViewlets_def emptyBar_def CompositeBar_isPinned_def
          git_def viewletA_def)
  from getPinned_registration_order [of freshExample] sub show ?thesis
    unfolding pinned by simp
qed

text \<open>
  The claim as the spec words it fails on the order. Both \<open>A\<close> and \<open>B\<close> are live and
  pinned; the bar holds \<open>B\<close> before \<open>A\<close>, the viewlet service lists \<open>A\<close> before \<open>B\<close>, and
  \<^verbatim>\<open>getPinned\<close> answers in the order of the viewlet service.
\<close>

theorem getPinned_not_in_bar_order:
  "map v_id (getViewlets (viewletService hostOrderExample)) = [''A'', ''B''] \<and>
   map c_id (items (compositeBar hostOrderExample)) = [''B'', ''A''] \<and>
   getPinned hostOrderExample = Return [''A'', ''B''] hostOrderExample \<and>
   getPinnedIds_spec hostOrderExample = [''B'', ''A'']"
  unfolding hostOrderExample_eq
  by (simp add: getPinned_def getPinnedIds_spec_def getViewlets_def getViewlet_def
        CompositeBar_isPinned_def emptyBar_def viewletA_def viewletB_def)

section \<open>From shutdown to the next construction\<close>

lemma revive_stringify: "revive_iconUrl (stringify_iconUrl u) = u"
proof (cases u)
  case None
  then show ?thesis by (simp add: revive_iconUrl_def stringify_iconUrl_def)
next
  case (Some uri)
  then show ?thesis by (cases uri) (simp add: revive_iconUrl_def stringify_iconUrl_def)
qed

lemma load_after_shutdown:
  "loadPlaceholderComposites (storageService (shutdown s)) cb =
     map (\<lambda>v. \<lparr>p_id = v_id v, p_iconUrl = v_iconUrl v\<rparr>) (getViewlets (viewletService s))"
  by (simp add: loadPlaceholderComposites_def shutdown_def revive_stringify Let_def comp_def)

lemma find_placeholder_of:
  "distinct (map v_id vls) \<Longrightarrow> v \<in> set vls \<Longrightarrow>
   find (\<lambda>c. p_id c = v_id v) (map (\<lambda>v. \<lparr>p_id = v_id v, p_iconUrl = v_iconUrl v\<rparr>) vls) =
     Some \<lparr>p_id = v_id v, p_iconUrl = v_iconUrl v\<rparr>"
  by (induction vls) force+

text \<open>
  Claim C4. \<^verbatim>\<open>shutdown\<close> stores, under the placeholder key, the id and the serialized
  icon of every live viewlet. A part constructed from that storage returns, and for every
  such viewlet that has not registered with the new viewlet service it holds the
  placeholder with the viewlet's id and icon and no control pair yet; the first access to
  the control pair then builds the placeholder pair, whose icon is the viewlet's icon. The
  ids of the live viewlets are distinct, as the viewlet registry has them.
\<close>

theorem placeholder_roundtrip:
  "distinct (map v_id (getViewlets (viewletService s))) \<Longrightarrow>
   viewlet \<in> set (getViewlets (viewletService s)) \<Longrightarrow>
   getViewlet vs (v_id viewlet) = None \<Longrightarrow>
     storageService (shutdown s) PLACEHOLDER_VIEWLETS =
       Some (map (\<lambda>v. \<lparr>j_id = v_id v, j_iconUrl = stringify_iconUrl (v_iconUrl v)\<rparr>)
               (getViewlets (viewletService s))) \<and>
     (\<exists>s'. new_ActivitybarPart vs (storageService (shutdown s)) cb = Return () s' \<and>
        find (\<lambda>c. p_id c = v_id viewlet) (placeholderComposites s') =
          Some \<lparr>p_id = v_id viewlet, p_iconUrl = v_iconUrl viewlet\<rparr> \<and>
        compositeActions s' (v_id viewlet) = None \<and>
        getCompositeActions s' (v_id viewlet) =
          Return (placeholderActions (v_id viewlet) (v_iconUrl viewlet))
            (s'\<lparr>compositeActions :=
                  (compositeActions s')(v_id viewlet \<mapsto> placeholderActions (v_id viewlet) (v_iconUrl viewlet))\<rparr>))"
proof -
  assume dist: "distinct (map v_id (getViewlets (viewletService s)))"
    and mem: "viewlet \<in> set (getViewlets (viewletService s))"
    and fresh: "getViewlet vs (v_id viewlet) = None"
  let ?st = "storageService (shutdown s)"
  let ?phs = "map (\<lambda>v. \<lparr>p_id = v_id v, p_iconUrl = v_iconUrl v\<rparr>) (getViewlets (viewletService s))"
  let ?s0 = "\<lparr>viewletService = vs, storageService = ?st, compositeBar = cb,
              globalActivityIdToActions = Map.empty, placeholderComposites = ?phs,
              compositeActions = Map.empty\<rparr>"
  have "set (viewlets vs) \<subseteq> set (viewlets (viewletService ?s0))"
    by simp
  from updateCompositebar_loop_effect [OF this] obtain s1 where
    u: "updateCompositebar_loop ?s0 (viewlets vs) = Return () s1"
      "viewletService s1 = viewletService ?s0"
      "placeholderComposites s1 = placeholderComposites ?s0"
      "dom (compositeActions s1) = dom (compositeActions ?s0) \<union> v_id ` set (viewlets vs)"
    by (elim exE conjE) (rule that)
  let ?s' = "updatePlaceholderComposites s1"
  have frame: "?s' = s1\<lparr>compositeBar := (compositeBar s1)\<lparr>items := items (compositeBar ?s')\<rparr>\<rparr>"
    unfolding updatePlaceholderComposites_def by (rule updatePlaceholderComposites_loop_frame)
  have same: "viewletService ?s' = vs" "placeholderComposites ?s' = ?phs"
    "compositeActions ?s' = compositeActions s1"
    by (subst frame, simp add: u(2,3))+
  have run: "new_ActivitybarPart vs ?st cb = Return () ?s'"
    by (simp add: new_ActivitybarPart_def load_after_shutdown updateCompositebar_def
          getViewlets_def [of vs] u(1) Let_def)
  have found: "find (\<lambda>c. p_id c = v_id viewlet) (placeholderComposites ?s') =
      Some \<lparr>p_id = v_id viewlet, p_iconUrl = v_iconUrl viewlet\<rparr>"
    unfolding same(2) by (rule find_placeholder_of [OF dist mem])
  have "v_id viewlet \<notin> dom (compositeActions s1)"
    using fresh unfolding u(4) by (simp add: getViewlet_None_iff)
  then have nopair: "compositeActions ?s' (v_id viewlet) = None"
    unfolding same(3) by blast
  have pair: "getCompositeActions ?s' (v_id viewlet) =
      Return (placeholderActions (v_id viewlet) (v_iconUrl viewlet))
        (?s'\<lparr>compositeActions :=
               (compositeActions ?s')(v_id viewlet \<mapsto> placeholderActions (v_id viewlet) (v_iconUrl viewlet))\<rparr>)"
    by (simp add: getCompositeActions_def nopair same(1) fresh filter_hd_find found
          placeholderActions_def Let_def)
  have stored: "?st PLACEHOLDER_VIEWLETS =
      Some (map (\<lambda>v. \<lparr>j_id = v_id v, j_iconUrl = stringify_iconUrl (v_iconUrl v)\<rparr>)
              (getViewlets (viewletService s)))"
    by (simp add: shutdown_def Let_def)
  show ?thesis
    using stored run found nopair pair by blast
qed

theorem placeholder_roundtrip_witness:
  "storageService (shutdown (part [git] [])) PLACEHOLDER_VIEWLETS =
     Some [\<lparr>j_id = ''git'', j_iconUrl = JSON_object (UriState ''U1'')\<rparr>] \<and>
   compositeActions (stateOf restartAfterGit) ''git'' = None \<and>
   getCompositeActions (stateOf restartAfterGit) ''git'' =
     Return (placeholderActions ''git'' (Some (URI ''U1'')))
       ((stateOf restartAfterGit)
          \<lparr>compositeActions :=
             (compositeActions (stateOf restartAfterGit))(''git'' \<mapsto> placeholderActions ''git'' (Some (URI ''U1'')))\<rparr>)"
proof -
  let ?s = "part [git] []"
  have dist: "distinct (map v_id (getViewlets (viewletService ?s)))"
    and mem: "git \<in> set (getViewlets (viewletService ?s))"
    and fresh: "getViewlet noViewlets (v_id git) = None"
    by (simp_all add: part_def getViewlets_def getViewlet_def noViewlets_def)
  from placeholder_roundtrip [OF dist mem fresh, of emptyBar] obtain s' where
    stored: "storageService (shutdown ?s) PLACEHOLDER_VIEWLETS =
       Some (map (\<lambda>v. \<lparr>j_id = v_id v, j_iconUrl = stringify_iconUrl (v_iconUrl v)\<rparr>)
               (getViewlets (viewletService ?s)))"
    and run: "new_ActivitybarPart noViewlets (storageService (shutdown ?s)) emptyBar = Return () s'"
    and nopair: "compositeActions s' (v_id git) = None"
    and pair: "getCompositeActions s' (v_id git) =
          Return (placeholderActions (v_id git) (v_iconUrl git))
            (s'\<lparr>compositeActions :=
                  (compositeActions s')(v_id git \<mapsto> placeholderActions (v_id git) (v_iconUrl git))\<rparr>)"
    by (elim exE conjE) (rule that)
  have s': "stateOf restartAfterGit = s'"
    by (simp add: restartAfterGit_def run)
  have g: "v_id git = ''git''" "v_iconUrl git = Some (URI ''U1'')"
    by (simp_all add: git_def)
  have "storageService (shutdown ?s) PLACEHOLDER_VIEWLETS =
     Some [\<lparr>j_id = ''git'', j_iconUrl = JSON_object (UriState ''U1'')\<rparr>]"
    unfolding stored by (simp add: part_def getViewlets_def g stringify_iconUrl_def)
  then show ?thesis
    using nopair pair unfolding s' g by simp
qed

end
